theory Spec2Isabelle
  imports Main "HOL-Library.Word" "HOL-Library.Signed_Division"
begin

section \<open>Go values shared by the packages\<close>

text \<open>
  Go's \<open>int\<close> is taken at its 64-bit width and \<open>time.Duration\<close> is an \<open>int64\<close> count of
  nanoseconds; both are 64-bit words read in two's complement. An \<open>error\<close> is its message,
  \<open>nil\<close> is \<open>None\<close>. An instant (\<open>time.Time\<close>) is a reading of the clock in nanoseconds.
\<close>

type_synonym go_int = "64 word"
type_synonym Duration = "64 word"
type_synonym go_error = string
type_synonym Time = int

definition Millisecond :: Duration where
  "Millisecond = 1000000"

definition Second :: Duration where
  "Second = 1000000000"

text \<open>\<open>t.Sub(u)\<close>: the difference of two instants, saturating at the ends of \<open>int64\<close>.\<close>

definition Sub :: "Time \<Rightarrow> Time \<Rightarrow> Duration" where
  "Sub t u = word_of_int (max (- (2 ^ 63)) (min (2 ^ 63 - 1) (t - u)))"

text \<open>
  Go's integer division: a zero divisor is a run-time panic, the quotient is truncated
  towards zero, and the most negative value divided by \<open>-1\<close> wraps to itself.
\<close>

datatype fault = DivideByZero

definition quot :: "go_int \<Rightarrow> go_int \<Rightarrow> go_int" where
  "quot a b = word_of_int (sint a sdiv sint b)"

definition go_div :: "go_int \<Rightarrow> go_int \<Rightarrow> fault + go_int" where
  "go_div a b = (if b = 0 then Inl DivideByZero else Inr (quot a b))"

text \<open>\<open>response.Response\<close>, the Outcome of one send.\<close>

record Response =
  Duration :: Duration
  Err :: "go_error option"
  Type :: string
  StatusCode :: go_int

datatype ClientConn = ClientConn string

datatype DescriptorSource = DescriptorSourceFromServer string

text \<open>The lines written to the log, one constructor per \<open>log.Printf\<close> of the sources.\<close>

datatype log_line =
    HttpErrorInRequest string go_error
  | HttpGreenResponse string Duration go_int string string
  | HttpRedResponse string Duration go_int string string
  | GrpcErrorInRequest string go_error
  | GrpcGreenResponse string Duration string
  | SpawningHTTP
  | SpawningGrpc
  | GrpcClientConnecting
  | GrpcClientConnectError go_error
  | FailedToCreateRequest string string go_error
  | GrpcClientInsecure
  | GrpcClientConnectingTo string
  | GrpcClientConnected
  | GrpcClientConnect go_error
  | CannotConstructParser
  | ClosingGrpcClient

text \<open>
  What a thread does to the outside, in the order it does it: sleeps, log lines, calls of the
  libraries, goroutines started, and the calls of a Transport Client with the Outcome each
  returned.
\<close>

datatype event =
    Sleeps Duration
  | Logs log_line
  | RandSeed
  | WgAdd
  | WgDone
  | WgWait
  | GoHTTPWarmupWorker go_int
  | GoGrpcWarmupWorker go_int
  | GrpcConnect "string list"
  | HttpSendRequest string string
  | GrpcSendRequest string string
  | Outcome Response
  | DialContext string
  | RequestParserAndFormatterFor string
  | InvokeRPC string "ClientConn option"
  | ConnClose
  | HttpNewRequest string string
  | HttpDo string string
  | IoCopyDiscard
  | TimeAfter Duration
  | ChanSend nat
  | CloseChan

record world =
  clock :: Time
  trace :: "event list"

definition emit :: "event \<Rightarrow> 'a world_scheme \<Rightarrow> 'a world_scheme" where
  "emit e \<sigma> = \<sigma>\<lparr>trace := trace \<sigma> @ [e]\<rparr>"

definition elapse :: "nat \<Rightarrow> 'a world_scheme \<Rightarrow> 'a world_scheme" where
  "elapse n \<sigma> = \<sigma>\<lparr>clock := clock \<sigma> + int n\<rparr>"

text \<open>
  \<open>time.Sleep(d)\<close>: a negative or zero duration returns at once; otherwise the clock moves
  on by \<open>d\<close> (that a scheduler may wake the thread later is left out).
\<close>

definition Sleep :: "Duration \<Rightarrow> 'a world_scheme \<Rightarrow> 'a world_scheme" where
  "Sleep d \<sigma> = elapse (if 0 < sint d then nat (sint d) else 0) (emit (Sleeps d) \<sigma>)"

section \<open>The RPC client (pkg/grpc/client.go)\<close>

text \<open>
  \<open>connClose\<close> is a function value: the no-op installed by \<open>NewClient\<close>, or the closure
  installed by \<open>connect\<close> that cancels the context and closes the connection.
  \<open>grpcConnectOnce\<close> is the state of the \<open>sync.Once\<close>: whether \<open>Do\<close> has run its function.
\<close>

datatype closer = ReturnNil | CancelAndClose ClientConn

record Client =
  host :: string
  timeoutSeconds :: go_int
  insecure :: bool
  grpcConnectOnce :: bool
  connClose :: closer
  conn :: "ClientConn option"
  descriptorSource :: "DescriptorSource option"

text \<open>
  What the network and the gRPC libraries answer during one call of the client: the error of
  \<open>grpc.DialContext\<close>, of \<open>grpcurl.RequestParserAndFormatterFor\<close>, of \<open>grpcurl.InvokeRPC\<close>
  and of \<open>conn.Close\<close>, and the nanoseconds the dial and the invocation take.
\<close>

record grpc_net =
  dialErr :: "go_error option"
  dialNanos :: nat
  parserErr :: "go_error option"
  invokeErr :: "go_error option"
  invokeNanos :: nat
  closeErr :: "go_error option"

definition NewClient :: "string \<Rightarrow> bool \<Rightarrow> go_int \<Rightarrow> Client" where
  "NewClient h i t =
     \<lparr>host = h, timeoutSeconds = t, insecure = i, grpcConnectOnce = False,
      connClose = ReturnNil, conn = None, descriptorSource = None\<rparr>"

definition connect ::
  "grpc_net \<Rightarrow> string list \<Rightarrow> Client \<times> 'a world_scheme \<Rightarrow>
   go_error option \<times> Client \<times> 'a world_scheme" where
  "connect net headers = (\<lambda>(c, \<sigma>).
     let \<sigma>1 = (if insecure c then emit (Logs GrpcClientInsecure) \<sigma> else \<sigma>);
         \<sigma>2 = emit (Logs (GrpcClientConnectingTo (host c))) \<sigma>1;
         \<sigma>3 = elapse (dialNanos net) (emit (DialContext (host c)) \<sigma>2)
     in case dialErr net of
          Some err \<Rightarrow> (Some (''Grpc dial: '' @ err), c, \<sigma>3)
        | None \<Rightarrow>
            (None,
             c\<lparr>conn := Some (ClientConn (host c)),
               connClose := CancelAndClose (ClientConn (host c)),
               descriptorSource := Some (DescriptorSourceFromServer (host c))\<rparr>,
             emit (Logs GrpcClientConnected) \<sigma>3))"

text \<open>
  \<open>Request\<close>. The variable \<open>connErr\<close> is local to the call and starts as \<open>nil\<close>; only the
  function handed to \<open>grpcConnectOnce.Do\<close> assigns it, and \<open>Do\<close> runs that function on its
  first call only. Both returns after \<open>InvokeRPC\<close> build the Response with \<open>Err: nil\<close>.
\<close>

definition Request ::
  "grpc_net \<Rightarrow> string \<Rightarrow> string \<Rightarrow> string list \<Rightarrow> Client \<times> 'a world_scheme \<Rightarrow>
   Response \<times> Client \<times> 'a world_scheme" where
  "Request net serviceMethod message headers = (\<lambda>(c, \<sigma>).
     let (connErr, c1, \<sigma>1) =
           (if grpcConnectOnce c then (None, c, \<sigma>)
            else (case connect net headers (c, \<sigma>) of
                    (e, c', \<sigma>') \<Rightarrow> (e, c'\<lparr>grpcConnectOnce := True\<rparr>, \<sigma>')))
     in case connErr of
          Some e \<Rightarrow>
            (\<lparr>Duration = 0, Err = Some e, Type = ''grpc'', StatusCode = 0\<rparr>, c1,
             emit (Logs (GrpcClientConnect e)) \<sigma>1)
        | None \<Rightarrow>
            (let \<sigma>2 = emit (RequestParserAndFormatterFor message) \<sigma>1
             in case parserErr net of
                  Some err \<Rightarrow>
                    (\<lparr>Duration = 0, Err = Some err, Type = ''grpc'', StatusCode = 0\<rparr>, c1,
                     emit (Logs CannotConstructParser) \<sigma>2)
                | None \<Rightarrow>
                    (let startTime = clock \<sigma>2;
                         \<sigma>3 = elapse (invokeNanos net) (emit (InvokeRPC serviceMethod (conn c1)) \<sigma>2);
                         endTime = clock \<sigma>3
                     in case invokeErr net of
                          Some err \<Rightarrow>
                            (\<lparr>Duration = Sub endTime startTime, Err = None, Type = ''grpc'',
                              StatusCode = 0\<rparr>, c1, \<sigma>3)
                        | None \<Rightarrow>
                            (\<lparr>Duration = Sub endTime startTime, Err = None, Type = ''grpc'',
                              StatusCode = 0\<rparr>, c1, \<sigma>3))))"

text \<open>\<open>Close\<close> calls whatever function \<open>connClose\<close> holds.\<close>

definition Close ::
  "grpc_net \<Rightarrow> Client \<times> 'a world_scheme \<Rightarrow> go_error option \<times> 'a world_scheme" where
  "Close net = (\<lambda>(c, \<sigma>).
     let \<sigma>1 = emit (Logs ClosingGrpcClient) \<sigma>
     in case connClose c of
          ReturnNil \<Rightarrow> (None, \<sigma>1)
        | CancelAndClose cc \<Rightarrow> (closeErr net, emit ConnClose \<sigma>1))"

text \<open>A sequence of calls of \<open>Request\<close> on one client, with the Outcome of each.\<close>

type_synonym rpc_call = "grpc_net \<times> string \<times> string \<times> string list"

fun Requests ::
  "rpc_call list \<Rightarrow> Client \<times> 'a world_scheme \<Rightarrow> Response list \<times> Client \<times> 'a world_scheme" where
  "Requests [] (c, \<sigma>) = ([], c, \<sigma>)"
| "Requests ((net, serviceMethod, message, headers) # calls) (c, \<sigma>) =
     (case Request net serviceMethod message headers (c, \<sigma>) of
        (r, c', \<sigma>') \<Rightarrow> (case Requests calls (c', \<sigma>') of (rs, c'', \<sigma>'') \<Rightarrow> (r # rs, c'', \<sigma>'')))"

section \<open>The HTTP client (internal/pkg/http)\<close>

text \<open>
  The client holds the host and an \<open>http.Client\<close> with a timeout of ten seconds whose
  transport may skip the verification of certificates.
\<close>

record HttpClient =
  http_host :: string
  http_Timeout :: Duration
  InsecureSkipVerify :: bool

definition TrimRight :: "string \<Rightarrow> char \<Rightarrow> string" where
  "TrimRight s ch = rev (dropWhile (\<lambda>x. x = ch) (rev s))"

definition TrimLeft :: "string \<Rightarrow> char \<Rightarrow> string" where
  "TrimLeft s ch = dropWhile (\<lambda>x. x = ch) s"

definition NewHttpClient :: "string \<Rightarrow> bool \<Rightarrow> HttpClient" where
  "NewHttpClient h i =
     \<lparr>http_host = TrimRight h CHR ''/'', http_Timeout = 10 * Second, InsecureSkipVerify = i\<rparr>"

text \<open>
  What the network and \<open>net/http\<close> answer during one send: the error of \<open>http.NewRequest\<close>,
  the error or the status code of \<open>httpClient.Do\<close>, the error of draining the body with
  \<open>io.Copy\<close>, and the nanoseconds that building the request, setting its headers, \<open>Do\<close> and
  the drain take.
\<close>

record http_net =
  newRequestErr :: "go_error option"
  newRequestNanos :: nat
  headersNanos :: nat
  doErr :: "go_error option"
  doStatusCode :: go_int
  doNanos :: nat
  copyErr :: "go_error option"
  copyNanos :: nat

text \<open>
  \<open>SendRequest\<close>. The loop over the headers only fills in the request that is being built;
  \<open>startTime\<close> is read after it and \<open>endTime\<close> as soon as \<open>Do\<close> has returned, before the
  body is drained.
\<close>

definition SendRequest ::
  "HttpClient \<Rightarrow> http_net \<Rightarrow> string \<Rightarrow> string \<Rightarrow> string list \<Rightarrow> string option \<Rightarrow>
   'a world_scheme \<Rightarrow> Response \<times> 'a world_scheme" where
  "SendRequest c net method path headers requestBody \<sigma> =
     (let url = http_host c @ ''/'' @ TrimLeft path CHR ''/'';
          \<sigma>1 = elapse (newRequestNanos net) (emit (HttpNewRequest method url) \<sigma>)
      in case newRequestErr net of
           Some err \<Rightarrow>
             (\<lparr>Duration = 0, Err = Some err, Type = ''http'', StatusCode = 0\<rparr>,
              emit (Logs (FailedToCreateRequest method url err)) \<sigma>1)
         | None \<Rightarrow>
             (let \<sigma>2 = elapse (headersNanos net) \<sigma>1;
                  startTime = clock \<sigma>2;
                  \<sigma>3 = elapse (doNanos net) (emit (HttpDo method url) \<sigma>2);
                  endTime = clock \<sigma>3
              in case doErr net of
                   Some err \<Rightarrow>
                     (\<lparr>Duration = Sub endTime startTime, Err = Some err, Type = ''http'',
                       StatusCode = 0\<rparr>, \<sigma>3)
                 | None \<Rightarrow>
                     (let \<sigma>4 = elapse (copyNanos net) (emit IoCopyDiscard \<sigma>3)
                      in case copyErr net of
                           Some err \<Rightarrow>
                             (\<lparr>Duration = Sub endTime startTime, Err = Some err, Type = ''http'',
                               StatusCode = doStatusCode net\<rparr>, \<sigma>4)
                         | None \<Rightarrow>
                             (\<lparr>Duration = Sub endTime startTime, Err = None, Type = ''http'',
                               StatusCode = doStatusCode net\<rparr>, \<sigma>4))))"

section \<open>The warmup (internal/pkg/warmup/warmup.go)\<close>

record http_Request =
  Method :: string
  Path :: string
  Body :: "string option"

record grpc_Request =
  ServiceMethod :: string
  Message :: string

text \<open>
  The type \<open>Target\<close> and the RPC client it holds (package internal/pkg/grpc, with the methods
  \<open>Connect\<close> and \<open>SendRequest\<close>) are not among the sources. The HTTP client of the target is
  the one above; the state of the RPC client and what its two methods return are passed to
  the functions that use them.
\<close>

record Target =
  httpClient :: HttpClient

record Warmup =
  Target :: Target
  Concurrency :: go_int
  HttpRequests :: "http_Request list"
  HttpHeaders :: "string list"
  GrpcRequests :: "grpc_Request list"
  RequestDelayMilliseconds :: go_int
  ConcurrencyTargetSeconds :: go_int

subsection \<open>Request sources\<close>

text \<open>
  The loop \<open>for { select { case <-timeout: ...; default: ... } }\<close> of a source. The timer
  fires after finitely many rounds: \<open>rounds\<close> is the number of rounds that find it not yet
  fired, \<open>rnd k\<close> is the random number drawn in round \<open>k\<close>, and \<open>rand.Intn(n)\<close> reduces it
  to the range below \<open>n\<close>. The result lists the indices sent on the channel.
\<close>

definition Intn :: "(nat \<Rightarrow> nat) \<Rightarrow> nat \<Rightarrow> nat \<Rightarrow> nat" where
  "Intn rnd k n = rnd k mod n"

fun selectLoop :: "nat \<Rightarrow> (nat \<Rightarrow> nat) \<Rightarrow> nat \<Rightarrow> nat \<Rightarrow> nat list" where
  "selectLoop n rnd 0 k = []"
| "selectLoop n rnd (Suc rounds) k = Intn rnd k n # selectLoop n rnd rounds (Suc k)"

text \<open>
  A source yields what its goroutine does and the descriptors the channel delivers before it
  is closed.
\<close>

definition GetWarmupHTTPRequests ::
  "Warmup \<Rightarrow> go_int \<Rightarrow> nat \<Rightarrow> (nat \<Rightarrow> nat) \<Rightarrow> event list \<times> http_Request list" where
  "GetWarmupHTTPRequests w maxDurationSeconds rounds rnd =
     (if length (HttpRequests w) = 0 then ([CloseChan], [])
      else (let numbers = selectLoop (length (HttpRequests w)) rnd rounds 0
            in (TimeAfter (maxDurationSeconds * Second) # map ChanSend numbers @ [CloseChan],
                map (\<lambda>number. HttpRequests w ! number) numbers)))"

definition GetWarmupGrpcRequests ::
  "Warmup \<Rightarrow> go_int \<Rightarrow> nat \<Rightarrow> (nat \<Rightarrow> nat) \<Rightarrow> event list \<times> grpc_Request list" where
  "GetWarmupGrpcRequests w maxDurationSeconds rounds rnd =
     (if length (GrpcRequests w) = 0 then ([CloseChan], [])
      else (let numbers = selectLoop (length (GrpcRequests w)) rnd rounds 0
            in (TimeAfter (maxDurationSeconds * Second) # map ChanSend numbers @ [CloseChan],
                map (\<lambda>number. GrpcRequests w ! number) numbers)))"

subsection \<open>Workers\<close>

text \<open>
  A worker runs in a world of its own that also holds the cell \<open>requestsSentCounter\<close> points
  to. It receives the descriptors its channel delivers, each paired here with what the
  network answers to the send made for it.
\<close>

record wstate = world +
  requestsSentCounter :: go_int

definition HTTPWarmupWorker_iteration ::
  "Warmup \<Rightarrow> string list \<Rightarrow> go_int \<Rightarrow> http_Request \<times> http_net \<Rightarrow> wstate \<Rightarrow> wstate" where
  "HTTPWarmupWorker_iteration w headers requestDelayMilliseconds = (\<lambda>(request, net) s.
     let s1 = emit (HttpSendRequest (Method request) (Path request))
                (Sleep (requestDelayMilliseconds * Millisecond) s);
         (resp, s2) = SendRequest (httpClient (Target w)) net (Method request) (Path request)
                        headers (Body request) s1;
         s3 = emit (Outcome resp) s2
     in case Err resp of
          Some err \<Rightarrow> emit (Logs (HttpErrorInRequest (Path request) err)) s3
        | None \<Rightarrow>
            (let s4 = s3\<lparr>requestsSentCounter := requestsSentCounter s3 + 1\<rparr>
             in if quot (StatusCode resp) 100 = 2
                then emit (Logs (HttpGreenResponse (Type resp) (quot (Duration resp) Millisecond)
                                   (StatusCode resp) (Method request) (Path request))) s4
                else emit (Logs (HttpRedResponse (Type resp) (quot (Duration resp) Millisecond)
                                   (StatusCode resp) (Method request) (Path request))) s4))"

fun HTTPWarmupWorker ::
  "Warmup \<Rightarrow> (http_Request \<times> http_net) list \<Rightarrow> string list \<Rightarrow> go_int \<Rightarrow> wstate \<Rightarrow> wstate" where
  "HTTPWarmupWorker w [] headers requestDelayMilliseconds s = emit WgDone s"
| "HTTPWarmupWorker w (request # requests) headers requestDelayMilliseconds s =
     HTTPWarmupWorker w requests headers requestDelayMilliseconds
       (HTTPWarmupWorker_iteration w headers requestDelayMilliseconds request s)"

text \<open>
  The RPC worker calls \<open>w.Target.grpcClient.SendRequest(serviceMethod, message, headers, false)\<close>;
  \<open>send\<close> stands for that method: from what the network answers, the arguments, the state
  \<open>c\<close> of the client and the instant of the call it gives the Outcome, the new state of the
  client and the instant of the return.
\<close>

definition GrpcWarmupWorker_iteration ::
  "('n \<Rightarrow> string \<Rightarrow> string \<Rightarrow> string list \<Rightarrow> 'c \<times> Time \<Rightarrow> Response \<times> 'c \<times> Time) \<Rightarrow>
   Warmup \<Rightarrow> string list \<Rightarrow> go_int \<Rightarrow> grpc_Request \<times> 'n \<Rightarrow> 'c \<times> wstate \<Rightarrow> 'c \<times> wstate" where
  "GrpcWarmupWorker_iteration send w headers requestDelayMilliseconds = (\<lambda>(request, net) (c, s).
     let s1 = emit (GrpcSendRequest (ServiceMethod request) (Message request))
                (Sleep (requestDelayMilliseconds * Millisecond) s);
         (resp, c2, t2) = send net (ServiceMethod request) (Message request) headers (c, clock s1);
         s3 = emit (Outcome resp) (s1\<lparr>clock := t2\<rparr>)
     in case Err resp of
          Some err \<Rightarrow> (c2, emit (Logs (GrpcErrorInRequest (ServiceMethod request) err)) s3)
        | None \<Rightarrow>
            (let s4 = s3\<lparr>requestsSentCounter := requestsSentCounter s3 + 1\<rparr>
             in (c2, emit (Logs (GrpcGreenResponse (Type resp) (quot (Duration resp) Millisecond)
                                   (ServiceMethod request))) s4)))"

fun GrpcWarmupWorker ::
  "('n \<Rightarrow> string \<Rightarrow> string \<Rightarrow> string list \<Rightarrow> 'c \<times> Time \<Rightarrow> Response \<times> 'c \<times> Time) \<Rightarrow>
   Warmup \<Rightarrow> (grpc_Request \<times> 'n) list \<Rightarrow> string list \<Rightarrow> go_int \<Rightarrow> 'c \<times> wstate \<Rightarrow> 'c \<times> wstate" where
  "GrpcWarmupWorker send w [] headers requestDelayMilliseconds (c, s) = (c, emit WgDone s)"
| "GrpcWarmupWorker send w (request # requests) headers requestDelayMilliseconds (c, s) =
     GrpcWarmupWorker send w requests headers requestDelayMilliseconds
       (GrpcWarmupWorker_iteration send w headers requestDelayMilliseconds request (c, s))"

text \<open>
  \<open>Request\<close> of pkg/grpc/client.go in the place of that method: the client of the sources
  that takes a service method, a message and the headers and returns a Response.
\<close>

definition sendByRequest ::
  "grpc_net \<Rightarrow> string \<Rightarrow> string \<Rightarrow> string list \<Rightarrow> Client \<times> Time \<Rightarrow> Response \<times> Client \<times> Time" where
  "sendByRequest net serviceMethod message headers = (\<lambda>(c, t).
     case Request net serviceMethod message headers (c, \<lparr>clock = t, trace = []\<rparr>) of
       (resp, c', \<sigma>') \<Rightarrow> (resp, c', clock \<sigma>'))"

subsection \<open>The orchestrator\<close>

definition waitForRampUp :: "go_int \<Rightarrow> go_int \<Rightarrow> 'a world_scheme \<Rightarrow> 'a world_scheme" where
  "waitForRampUp rampUpInterval currentConcurrency \<sigma> =
     (if 1 <s currentConcurrency \<and> 0 <s rampUpInterval
      then Sleep (rampUpInterval * Second) \<sigma> else \<sigma>)"

text \<open>
  The two loops \<open>for i := 1; i <= w.Concurrency; i++\<close> of \<open>Run\<close>, over the values \<open>i\<close>
  takes. Starting a goroutine is recorded with the deadline its source is given.
\<close>

definition loopIndices :: "go_int \<Rightarrow> go_int list" where
  "loopIndices c = map word_of_int [1..sint c]"

fun spawnHTTP :: "go_int \<Rightarrow> go_int \<Rightarrow> go_int list \<Rightarrow> 'a world_scheme \<Rightarrow> 'a world_scheme" where
  "spawnHTTP rampUpInterval maxDurationSeconds [] \<sigma> = \<sigma>"
| "spawnHTTP rampUpInterval maxDurationSeconds (i # is) \<sigma> =
     spawnHTTP rampUpInterval maxDurationSeconds is
       (emit (GoHTTPWarmupWorker maxDurationSeconds)
          (emit WgAdd (emit (Logs SpawningHTTP) (waitForRampUp rampUpInterval i \<sigma>))))"

fun spawnGrpc :: "go_int \<Rightarrow> go_int \<Rightarrow> go_int list \<Rightarrow> 'a world_scheme \<Rightarrow> 'a world_scheme" where
  "spawnGrpc rampUpInterval maxDurationSeconds [] \<sigma> = \<sigma>"
| "spawnGrpc rampUpInterval maxDurationSeconds (i # is) \<sigma> =
     spawnGrpc rampUpInterval maxDurationSeconds is
       (emit (GoGrpcWarmupWorker maxDurationSeconds)
          (emit WgAdd (emit (Logs SpawningGrpc) (waitForRampUp rampUpInterval i \<sigma>))))"

text \<open>
  \<open>Run\<close>, as the thread that calls it sees it. \<open>connErr\<close> and \<open>connectNanos\<close> are what
  \<open>w.Target.grpcClient.Connect\<close> returns and how long it takes. A panic ends the run in
  the world reached so far.
\<close>

datatype 'w run_result = Panic fault 'w | Return 'w

definition Run ::
  "Warmup \<Rightarrow> bool \<Rightarrow> bool \<Rightarrow> go_int \<Rightarrow> go_error option \<Rightarrow> nat \<Rightarrow> 'a world_scheme \<Rightarrow>
   'a world_scheme run_result" where
  "Run w hasHttpRequests hasGrpcRequests maxDurationSeconds connErr connectNanos \<sigma> =
     (let \<sigma>0 = emit RandSeed \<sigma>
      in case go_div (ConcurrencyTargetSeconds w) (Concurrency w) of
           Inl f \<Rightarrow> Panic f \<sigma>0
         | Inr rampUpInterval \<Rightarrow>
             (let \<sigma>1 = (if hasHttpRequests
                        then spawnHTTP rampUpInterval maxDurationSeconds
                               (loopIndices (Concurrency w)) \<sigma>0
                        else \<sigma>0);
                  \<sigma>2 = (if hasGrpcRequests
                        then (let \<sigma>c = elapse connectNanos
                                          (emit (GrpcConnect (HttpHeaders w))
                                             (emit (Logs GrpcClientConnecting) \<sigma>1))
                              in case connErr of
                                   Some err \<Rightarrow> emit (Logs (GrpcClientConnectError err)) \<sigma>c
                                 | None \<Rightarrow>
                                     spawnGrpc rampUpInterval maxDurationSeconds
                                       (loopIndices (Concurrency w)) \<sigma>c)
                        else \<sigma>1)
              in Return (emit WgWait \<sigma>2)))"

section \<open>Observing runs\<close>

text \<open>The world a run ended in, whether it returned, and the events it added to a trace.\<close>

definition theWorld :: "'w run_result \<Rightarrow> 'w" where
  "theWorld r = (case r of Panic f \<sigma> \<Rightarrow> \<sigma> | Return \<sigma> \<Rightarrow> \<sigma>)"

definition returns :: "'w run_result \<Rightarrow> bool" where
  "returns r = (case r of Panic f \<sigma> \<Rightarrow> False | Return \<sigma> \<Rightarrow> True)"

definition since :: "'a world_scheme \<Rightarrow> 'b world_scheme \<Rightarrow> event list" where
  "since \<sigma> \<sigma>' = drop (length (trace \<sigma>)) (trace \<sigma>')"

definition eventsOf :: "'a world_scheme \<Rightarrow> 'a world_scheme run_result \<Rightarrow> event list" where
  "eventsOf \<sigma> r = since \<sigma> (theWorld r)"

fun isSendRequest :: "event \<Rightarrow> bool" where
  "isSendRequest (HttpSendRequest method path) = True"
| "isSendRequest (GrpcSendRequest serviceMethod message) = True"
| "isSendRequest e = False"

fun isGrpcConnect :: "event \<Rightarrow> bool" where
  "isGrpcConnect (GrpcConnect headers) = True"
| "isGrpcConnect e = False"

fun isGoHTTP :: "event \<Rightarrow> bool" where
  "isGoHTTP (GoHTTPWarmupWorker d) = True"
| "isGoHTTP e = False"

fun isGoGrpc :: "event \<Rightarrow> bool" where
  "isGoGrpc (GoGrpcWarmupWorker d) = True"
| "isGoGrpc e = False"

definition isGo :: "event \<Rightarrow> bool" where
  "isGo e = (isGoHTTP e \<or> isGoGrpc e)"

fun isDial :: "event \<Rightarrow> bool" where
  "isDial (DialContext h) = True"
| "isDial e = False"

fun outcomeOf :: "event \<Rightarrow> Response list" where
  "outcomeOf (Outcome r) = [r]"
| "outcomeOf e = []"

text \<open>The Outcomes the Transport Client returned, in order, and those without an error.\<close>

definition outcomes :: "event list \<Rightarrow> Response list" where
  "outcomes es = concat (map outcomeOf es)"

definition noError :: "Response \<Rightarrow> bool" where
  "noError r = (Err r = None)"

text \<open>
  Events among which no Transport Client is called and none returns: what the inside of one
  send adds to the trace.
\<close>

definition quiet :: "event list \<Rightarrow> bool" where
  "quiet es = (list_all (\<lambda>e. \<not> isSendRequest e) es \<and> outcomes es = [])"

text \<open>
  Every call of a Transport Client in \<open>es\<close> comes directly after a sleep of \<open>d\<close>; so none is
  the first event.
\<close>

definition pacedBy :: "Duration \<Rightarrow> event list \<Rightarrow> bool" where
  "pacedBy d es = (\<forall>k < length es. isSendRequest (es ! k) \<longrightarrow> 0 < k \<and> es ! (k - 1) = Sleeps d)"

text \<open>
  A run of a worker over \<open>n\<close> descriptors: every send is paced, each descriptor is sent
  once and has one Outcome, and the counter grows by the number of Outcomes without error.
\<close>

definition workerRun :: "Duration \<Rightarrow> nat \<Rightarrow> go_int \<Rightarrow> go_int \<Rightarrow> event list \<Rightarrow> bool" where
  "workerRun d n c c' es =
     (pacedBy d es \<and> length (filter isSendRequest es) = n \<and> length (outcomes es) = n \<and>
      c' = c + of_nat (length (filter noError (outcomes es))))"

text \<open>
  The ramp as the specification words it: the workers are started one at a time, in the order
  of their indices \<open>1..c\<close>, each by the events \<open>start\<close>; worker 1 is started with no pause;
  before a worker of index \<open>i > 1\<close> the control thread pauses for the interval, and an
  interval that is not positive is no pause at all.
\<close>

definition rampPause :: "go_int \<Rightarrow> int \<Rightarrow> event list" where
  "rampPause interval i = (if 1 < i \<and> 0 < sint interval then [Sleeps (interval * Second)] else [])"

definition rampSchedule :: "go_int \<Rightarrow> go_int \<Rightarrow> event list \<Rightarrow> event list" where
  "rampSchedule interval c start = concat (map (\<lambda>i. rampPause interval i @ start) [1..sint c])"

text \<open>A client that holds no connection holds the no-op as its \<open>connClose\<close>.\<close>

definition closer_matches :: "Client \<Rightarrow> bool" where
  "closer_matches c = (case conn c of None \<Rightarrow> connClose c = ReturnNil | Some cc \<Rightarrow> True)"

section \<open>Example inputs\<close>

definition world0 :: world where
  "world0 = \<lparr>clock = 0, trace = []\<rparr>"

definition wstate0 :: wstate where
  "wstate0 = \<lparr>clock = 0, trace = [], requestsSentCounter = 0\<rparr>"

text \<open>A server that refuses the dial, and one that is reached but fails the invocation.\<close>

definition net_refused :: grpc_net where
  "net_refused =
     \<lparr>dialErr = Some ''connection refused'', dialNanos = 5, parserErr = None,
      invokeErr = Some ''no connection'', invokeNanos = 7, closeErr = None\<rparr>"

definition net_unavailable :: grpc_net where
  "net_unavailable =
     \<lparr>dialErr = None, dialNanos = 5, parserErr = None,
      invokeErr = Some ''rpc error: code = Unavailable'', invokeNanos = 7, closeErr = None\<rparr>"

text \<open>
  A server that answers 200 after 20 ms with a body that takes 500 ms to drain, one that
  answers 500, and one that times out.
\<close>

definition net_slow_body :: http_net where
  "net_slow_body =
     \<lparr>newRequestErr = None, newRequestNanos = 1000000, headersNanos = 0, doErr = None,
      doStatusCode = 200, doNanos = 20000000, copyErr = None, copyNanos = 500000000\<rparr>"

definition net_500 :: http_net where
  "net_500 =
     \<lparr>newRequestErr = None, newRequestNanos = 1000, headersNanos = 0, doErr = None,
      doStatusCode = 500, doNanos = 3000000, copyErr = None, copyNanos = 1000\<rparr>"

definition net_timeout :: http_net where
  "net_timeout =
     \<lparr>newRequestErr = None, newRequestNanos = 1000, headersNanos = 0,
      doErr = Some ''context deadline exceeded'', doStatusCode = 0, doNanos = 10000000000,
      copyErr = None, copyNanos = 0\<rparr>"

definition getA :: http_Request where
  "getA = \<lparr>Method = ''GET'', Path = ''/a'', Body = None\<rparr>"

definition callM :: grpc_Request where
  "callM = \<lparr>ServiceMethod = ''svc/Method'', Message = ''{}''\<rparr>"

text \<open>Three workers ramped up over six seconds; the same with no worker; with one worker.\<close>

definition warmup3 :: Warmup where
  "warmup3 =
     \<lparr>Target = \<lparr>httpClient = NewHttpClient ''http://localhost:8080/'' False\<rparr>,
      Concurrency = 3, HttpRequests = [getA], HttpHeaders = [], GrpcRequests = [callM],
      RequestDelayMilliseconds = 50, ConcurrencyTargetSeconds = 6\<rparr>"

definition warmup0 :: Warmup where
  "warmup0 = warmup3\<lparr>Concurrency := 0\<rparr>"

definition warmup1 :: Warmup where
  "warmup1 = warmup3\<lparr>Concurrency := 1\<rparr>"

definition warmupEmpty :: Warmup where
  "warmupEmpty = warmup3\<lparr>HttpRequests := [], GrpcRequests := []\<rparr>"

section \<open>Traces, clocks and counters\<close>

lemma trace_emit [simp]: "trace (emit e \<sigma>) = trace \<sigma> @ [e]"
  by (simp add: emit_def)

lemma clock_emit [simp]: "clock (emit e \<sigma>) = clock \<sigma>"
  by (simp add: emit_def)

lemma trace_elapse [simp]: "trace (elapse n \<sigma>) = trace \<sigma>"
  by (simp add: elapse_def)

lemma clock_elapse [simp]: "clock (elapse n \<sigma>) = clock \<sigma> + int n"
  by (simp add: elapse_def)

lemma trace_Sleep [simp]: "trace (Sleep d \<sigma>) = trace \<sigma> @ [Sleeps d]"
  by (simp add: Sleep_def)

lemma counter_emit [simp]: "requestsSentCounter (emit e s) = requestsSentCounter s"
  by (simp add: emit_def)

lemma counter_elapse [simp]: "requestsSentCounter (elapse n s) = requestsSentCounter s"
  by (simp add: elapse_def)

lemma counter_Sleep [simp]: "requestsSentCounter (Sleep d s) = requestsSentCounter s"
  by (simp add: Sleep_def)

lemma since_append [simp]: "trace \<sigma>' = trace \<sigma> @ es \<Longrightarrow> since \<sigma> \<sigma>' = es"
  by (simp add: since_def)

lemma outcomes_append [simp]: "outcomes (xs @ ys) = outcomes xs @ outcomes ys"
  by (simp add: outcomes_def)

lemmas grpc_eval =
  Request_def connect_def NewClient_def Close_def sendByRequest_def net_refused_def
  net_unavailable_def world0_def wstate0_def callM_def emit_def elapse_def Sleep_def Let_def
  Sub_def GrpcWarmupWorker_iteration_def quot_def Millisecond_def

section \<open>The RPC client: closing, connecting once, failed invocations\<close>

text \<open>A connect that fails leaves the client, and with it \<open>connClose\<close>, as it was.\<close>

lemma connect_error_keeps_client:
  "connect net hs (c, \<sigma>) = (Some e, c', \<sigma>') \<Longrightarrow> c' = c"
  by (auto simp: connect_def Let_def split: option.splits)

lemma Request_closer_matches:
  "Request net sm msg hs (c, \<sigma>) = (r, c', \<sigma>') \<Longrightarrow> closer_matches c \<Longrightarrow> closer_matches c'"
  by (auto simp: Request_def connect_def closer_matches_def Let_def
      split: option.splits if_splits prod.splits)

lemma Requests_closer_matches:
  "Requests calls (c, \<sigma>) = (rs, c', \<sigma>') \<Longrightarrow> closer_matches c \<Longrightarrow> closer_matches c'"
proof (induction calls arbitrary: c \<sigma> rs)
  case Nil
  then show ?case by simp
next
  case (Cons call calls)
  obtain net sm msg hs where call: "call = (net, sm, msg, hs)"
    by (cases call) auto
  obtain r c1 \<sigma>1 where r: "Request net sm msg hs (c, \<sigma>) = (r, c1, \<sigma>1)"
    by (cases "Request net sm msg hs (c, \<sigma>)") auto
  obtain rs1 c2 \<sigma>2 where rs: "Requests calls (c1, \<sigma>1) = (rs1, c2, \<sigma>2)"
    by (cases "Requests calls (c1, \<sigma>1)") auto
  from Cons.prems(1) call r rs have eq: "c' = c2" "\<sigma>' = \<sigma>2" by simp_all
  have "closer_matches c1" using Request_closer_matches [OF r Cons.prems(2)] .
  then have "closer_matches c2" using Cons.IH rs eq by blast
  then show ?case using eq by simp
qed

text \<open>
  C10. Closing a client that holds no connection returns no error, whatever \<open>conn.Close\<close>
  would answer: \<open>NewClient\<close> installs the no-op as \<open>connClose\<close>, and after any sequence of
  calls of \<open>Request\<close> a client whose \<open>conn\<close> is still \<open>nil\<close> (none was made, or the connect
  failed) still holds that no-op, since only a successful \<open>connect\<close> replaces it.
\<close>

theorem Close_never_connected:
  assumes "Requests calls (NewClient h i t, \<sigma>) = (rs, c, \<sigma>')" and "conn c = None"
  shows "fst (Close net (c, \<sigma>')) = None"
proof -
  have "closer_matches (NewClient h i t)"
    by (simp add: closer_matches_def NewClient_def)
  then have "closer_matches c"
    using Requests_closer_matches [OF assms(1)] by simp
  with assms(2) have "connClose c = ReturnNil"
    by (simp add: closer_matches_def)
  then show ?thesis by (simp add: Close_def Let_def)
qed

theorem Close_never_connected_witness:
  "conn (fst (snd (Requests [(net_refused, ''svc/Method'', ''{}'', [])]
                     (NewClient ''localhost:50051'' False 10, world0)))) = None \<and>
   fst (Close net_refused
          (snd (Requests [(net_refused, ''svc/Method'', ''{}'', [])]
                  (NewClient ''localhost:50051'' False 10, world0)))) = None"
proof -
  let ?R = "Requests [(net_refused, ''svc/Method'', ''{}'', [])]
              (NewClient ''localhost:50051'' False 10, world0)"
  have eq: "?R = (fst ?R, fst (snd ?R), snd (snd ?R))" by simp
  have h: "conn (fst (snd ?R)) = None" by (simp add: grpc_eval)
  from Close_never_connected [OF eq h, of net_refused] h show ?thesis by simp
qed

text \<open>
  Over any sequence of calls of \<open>Request\<close> on one client at most one dial is attempted:
  exactly one if the client had not yet run its \<open>grpcConnectOnce\<close> and is called at all.
\<close>

lemma Request_dials:
  "\<exists>es. trace (snd (snd (Request net sm msg hs (c, \<sigma>)))) = trace \<sigma> @ es \<and>
        length (filter isDial es) = (if grpcConnectOnce c then 0 else 1) \<and>
        grpcConnectOnce (fst (snd (Request net sm msg hs (c, \<sigma>))))"
  by (simp add: Request_def connect_def Let_def split: option.splits prod.splits)

lemma Requests_dial_at_most_once:
  "\<exists>es. trace (snd (snd (Requests calls (c, \<sigma>)))) = trace \<sigma> @ es \<and>
        length (filter isDial es) = (if grpcConnectOnce c \<or> calls = [] then 0 else 1)"
proof (induction calls arbitrary: c \<sigma>)
  case Nil
  show ?case by simp
next
  case (Cons call calls)
  obtain net sm msg hs where call: "call = (net, sm, msg, hs)" by (cases call) auto
  obtain r c1 \<sigma>1 where r: "Request net sm msg hs (c, \<sigma>) = (r, c1, \<sigma>1)"
    by (cases "Request net sm msg hs (c, \<sigma>)") auto
  from Request_dials [of net sm msg hs c \<sigma>] r
  obtain es1 where es1: "trace \<sigma>1 = trace \<sigma> @ es1"
    "length (filter isDial es1) = (if grpcConnectOnce c then 0 else 1)" "grpcConnectOnce c1"
    by auto
  from Cons.IH [of c1 \<sigma>1] es1(3)
  obtain es2 where es2: "trace (snd (snd (Requests calls (c1, \<sigma>1)))) = trace \<sigma>1 @ es2"
    "length (filter isDial es2) = 0"
    by auto
  obtain rs c2 \<sigma>2 where rs: "Requests calls (c1, \<sigma>1) = (rs, c2, \<sigma>2)"
    by (cases "Requests calls (c1, \<sigma>1)") auto
  have "trace (snd (snd (Requests (call # calls) (c, \<sigma>)))) = trace \<sigma> @ (es1 @ es2)"
    using call r rs es1(1) es2(1) by simp
  moreover have "length (filter isDial (es1 @ es2)) = (if grpcConnectOnce c then 0 else 1)"
    using es1(2) es2(2) by simp
  ultimately show ?case by (intro exI [of _ "es1 @ es2"]) simp
qed

text \<open>
  Once \<open>grpcConnectOnce\<close> has run, whatever its connect returned, a call neither dials nor
  fails on a connect error: the error of its Outcome is the parser's, if any.
\<close>

lemma Request_after_first_call:
  assumes "grpcConnectOnce c"
  shows "Err (fst (Request net sm msg hs (c, \<sigma>))) = parserErr net \<and>
         filter isDial (since \<sigma> (snd (snd (Request net sm msg hs (c, \<sigma>))))) = [] \<and>
         conn (fst (snd (Request net sm msg hs (c, \<sigma>)))) = conn c"
  using assms by (simp add: Request_def Let_def since_def split: option.splits)

text \<open>
  When the dial and the parser raise no error, the Outcome has none, whatever \<open>InvokeRPC\<close>
  returned.
\<close>

lemma Request_invoke_error_dropped:
  assumes "dialErr net = None" and "parserErr net = None"
  shows "Err (fst (Request net sm msg hs (c, \<sigma>))) = None"
  using assms by (simp add: Request_def connect_def Let_def split: option.splits)

text \<open>
  C3, at two calls on a client whose dial is refused. The first call dials once and returns
  the connect error. The second call does not dial again, but it finds its own \<open>connErr\<close>
  still \<open>nil\<close>: it goes on to build the parser and to invoke the method on the \<open>nil\<close>
  connection, and it returns a Response without an error instead of the connect error.
\<close>

theorem Request_after_failed_connect_proceeds:
  "map Err (fst (Requests [(net_refused, ''svc/Method'', ''{}'', []),
                           (net_refused, ''svc/Method'', ''{}'', [])]
                   (NewClient ''localhost:50051'' False 10, world0)))
     = [Some ''Grpc dial: connection refused'', None] \<and>
   trace (snd (snd (Requests [(net_refused, ''svc/Method'', ''{}'', []),
                              (net_refused, ''svc/Method'', ''{}'', [])]
                      (NewClient ''localhost:50051'' False 10, world0))))
     = [Logs (GrpcClientConnectingTo ''localhost:50051''),
        DialContext ''localhost:50051'',
        Logs (GrpcClientConnect ''Grpc dial: connection refused''),
        RequestParserAndFormatterFor ''{}'',
        InvokeRPC ''svc/Method'' None]"
  by (simp add: grpc_eval)

text \<open>
  C1, at an invocation that fails after the connect succeeded: the Response \<open>Request\<close>
  returns has no error, and a worker that sends through \<open>Request\<close> counts it.
\<close>

theorem Request_drops_invoke_error:
  "Err (fst (Request net_unavailable ''svc/Method'' ''{}'' []
               (NewClient ''localhost:50051'' False 10, world0))) = None \<and>
   conn (fst (snd (Request net_unavailable ''svc/Method'' ''{}'' []
               (NewClient ''localhost:50051'' False 10, world0))))
     = Some (ClientConn ''localhost:50051'') \<and>
   requestsSentCounter
     (snd (GrpcWarmupWorker sendByRequest warmup1 [(callM, net_unavailable)] [] 50
             (NewClient ''localhost:50051'' False 10, wstate0))) = 1"
  by (simp add: grpc_eval)

section \<open>The orchestrator: ramp-up, division, connecting once\<close>

lemma sint_word_of_int_64:
  "- (2 ^ 63) \<le> x \<Longrightarrow> x < 2 ^ 63 \<Longrightarrow> sint (word_of_int x :: 64 word) = x"
  by (simp add: signed_of_int signed_take_bit_int_eq_self)

lemma sint_range_64: "- (2 ^ 63) \<le> sint (x :: 64 word) \<and> sint x < 2 ^ 63"
  using sint_ge [of x] sint_lt [of x] by simp



text \<open>
  For intervals of up to 9223372036 seconds, which is what a \<open>Duration\<close> holds, the product
  \<open>time.Duration(interval) * time.Second\<close> is the interval in nanoseconds.
\<close>

lemma seconds_exact:
  assumes "0 \<le> sint x" and "sint x \<le> 9223372036"
  shows "sint (x * Second) = sint x * 1000000000"
proof -
  have "x * Second = word_of_int (sint x * 1000000000)"
    by (simp add: Second_def)
  moreover have "- (2 ^ 63) \<le> sint x * 1000000000" "sint x * 1000000000 < 2 ^ 63"
    using assms by simp_all
  ultimately show ?thesis by (simp only: sint_word_of_int_64)
qed

lemma trace_waitForRampUp:
  assumes "1 \<le> i" and "i < 2 ^ 63"
  shows "trace (waitForRampUp interval (word_of_int i) \<sigma>) = trace \<sigma> @ rampPause interval i"
proof -
  have "sint (word_of_int i :: 64 word) = i" using assms by (simp add: sint_word_of_int_64)
  then show ?thesis
    by (simp add: waitForRampUp_def rampPause_def word_sless_alt)
qed

lemma trace_spawnHTTP:
  assumes "\<forall>i \<in> set is. 1 \<le> i \<and> i < 2 ^ 63"
  shows "trace (spawnHTTP interval m (map word_of_int is) \<sigma>) =
         trace \<sigma> @ concat (map (\<lambda>i. rampPause interval i @ [Logs SpawningHTTP, WgAdd, GoHTTPWarmupWorker m]) is)"
  using assms
proof (induction "is" arbitrary: \<sigma>)
  case Nil
  then show ?case by simp
next
  case (Cons i "is")
  then show ?case by (simp add: trace_waitForRampUp)
qed

lemma trace_spawnGrpc:
  assumes "\<forall>i \<in> set is. 1 \<le> i \<and> i < 2 ^ 63"
  shows "trace (spawnGrpc interval m (map word_of_int is) \<sigma>) =
         trace \<sigma> @ concat (map (\<lambda>i. rampPause interval i @ [Logs SpawningGrpc, WgAdd, GoGrpcWarmupWorker m]) is)"
  using assms
proof (induction "is" arbitrary: \<sigma>)
  case Nil
  then show ?case by simp
next
  case (Cons i "is")
  then show ?case by (simp add: trace_waitForRampUp)
qed

lemma upto_range: "\<forall>i \<in> set [1..sint (c :: 64 word)]. 1 \<le> i \<and> i < 2 ^ 63"
  using sint_range_64 [of c] by auto

lemma trace_spawnHTTP_loop:
  "trace (spawnHTTP interval m (loopIndices c) \<sigma>) =
   trace \<sigma> @ rampSchedule interval c [Logs SpawningHTTP, WgAdd, GoHTTPWarmupWorker m]"
  unfolding loopIndices_def rampSchedule_def by (rule trace_spawnHTTP [OF upto_range])

lemma trace_spawnGrpc_loop:
  "trace (spawnGrpc interval m (loopIndices c) \<sigma>) =
   trace \<sigma> @ rampSchedule interval c [Logs SpawningGrpc, WgAdd, GoGrpcWarmupWorker m]"
  unfolding loopIndices_def rampSchedule_def by (rule trace_spawnGrpc [OF upto_range])

lemma Run_events:
  assumes "Concurrency w \<noteq> 0"
  shows "returns (Run w h g m connErr cn \<sigma>) \<and>
     eventsOf \<sigma> (Run w h g m connErr cn \<sigma>) =
       [RandSeed]
       @ (if h then rampSchedule (quot (ConcurrencyTargetSeconds w) (Concurrency w)) (Concurrency w)
                      [Logs SpawningHTTP, WgAdd, GoHTTPWarmupWorker m] else [])
       @ (if g then [Logs GrpcClientConnecting, GrpcConnect (HttpHeaders w)]
                    @ (case connErr of
                         Some err \<Rightarrow> [Logs (GrpcClientConnectError err)]
                       | None \<Rightarrow> rampSchedule (quot (ConcurrencyTargetSeconds w) (Concurrency w))
                                   (Concurrency w) [Logs SpawningGrpc, WgAdd, GoGrpcWarmupWorker m])
          else [])
       @ [WgWait]"
  using assms
  by (simp add: Run_def go_div_def Let_def returns_def eventsOf_def theWorld_def since_def
      trace_spawnHTTP_loop trace_spawnGrpc_loop split: option.splits)

lemma Run_zero:
  assumes "Concurrency w = 0"
  shows "Run w h g m connErr cn \<sigma> = Panic DivideByZero (emit RandSeed \<sigma>)"
  using assms by (simp add: Run_def go_div_def Let_def)

lemma rampSchedule_nonpos: "sint c < 1 \<Longrightarrow> rampSchedule interval c start = []"
  by (simp add: rampSchedule_def)

lemma set_rampSchedule:
  "set (rampSchedule interval c start) \<subseteq> insert (Sleeps (interval * Second)) (set start)"
  by (auto simp: rampSchedule_def rampPause_def)

lemma filter_rampSchedule_empty:
  assumes "\<not> P (Sleeps (interval * Second))" and "\<forall>e \<in> set start. \<not> P e"
  shows "filter P (rampSchedule interval c start) = []"
  using assms set_rampSchedule [of interval c start] by (auto simp: filter_empty_conv)

lemma takeWhile_until:
  assumes "\<forall>x \<in> set xs. P x" and "\<not> P y"
  shows "takeWhile P (xs @ y # ys) = xs"
  using assms by (simp add: takeWhile_tail)

lemmas run_eval = Run_def go_div_def quot_def Let_def warmup3_def warmup0_def warmup1_def
  world0_def emit_def elapse_def Sleep_def loopIndices_def waitForRampUp_def Second_def
  returns_def eventsOf_def theWorld_def since_def NewHttpClient_def getA_def callM_def


text \<open>
  C2, as the code has it. \<open>Run\<close> validates nothing and rejects no configuration, and the
  division that computes the ramp interval is not guarded. With a concurrency other than
  zero that division cannot fault and \<open>Run\<close> returns, whatever the two flags are. A
  negative concurrency is accepted: \<open>Run\<close> returns and has started no worker.
\<close>

theorem Run_division_unguarded:
  "(Concurrency w \<noteq> 0 \<longrightarrow> returns (Run w h g m connErr cn \<sigma>)) \<and>
   (Concurrency w <s 0 \<longrightarrow>
      returns (Run w h g m connErr cn \<sigma>) \<and>
      filter isGo (eventsOf \<sigma> (Run w h g m connErr cn \<sigma>)) = [])"
proof (intro conjI impI)
  assume "Concurrency w \<noteq> 0"
  then show "returns (Run w h g m connErr cn \<sigma>)" using Run_events by blast
next
  assume neg: "Concurrency w <s 0"
  then have nz: "Concurrency w \<noteq> 0" by auto
  then show "returns (Run w h g m connErr cn \<sigma>)" using Run_events by blast
  from neg have "sint (Concurrency w) < 1" by (simp add: word_sless_alt)
  then have "\<And>iv st. rampSchedule iv (Concurrency w) st = []" by (rule rampSchedule_nonpos)
  then show "filter isGo (eventsOf \<sigma> (Run w h g m connErr cn \<sigma>)) = []"
    using Run_events [OF nz, of h g m connErr cn \<sigma>] by (simp add: isGo_def split: option.splits)
qed

theorem Run_division_unguarded_witness:
  "Concurrency warmup3 \<noteq> 0 \<and>
   returns (Run warmup3 True True 60 None 0 world0) \<and>
   Concurrency (warmup3\<lparr>Concurrency := - 1\<rparr>) <s 0 \<and>
   returns (Run (warmup3\<lparr>Concurrency := - 1\<rparr>) True True 60 None 0 world0) \<and>
   filter isGo (eventsOf world0 (Run (warmup3\<lparr>Concurrency := - 1\<rparr>) True True 60 None 0 world0))
     = []"
proof -
  have h: "Concurrency warmup3 \<noteq> 0" by (simp add: warmup3_def)
  have n: "Concurrency (warmup3\<lparr>Concurrency := - 1\<rparr>) <s 0" by (simp add: word_sless_alt)
  from Run_division_unguarded [of warmup3 True True 60 None 0 world0]
    Run_division_unguarded [of "warmup3\<lparr>Concurrency := - 1\<rparr>" True True 60 None 0 world0] h n
  show ?thesis by blast
qed

text \<open>
  The claim C2 as stated fails: a call of \<open>Run\<close> with concurrency zero, with both kinds of
  requests configured, ends in the division-by-zero panic of that division, when nothing
  but the seeding of the random generator has happened.
\<close>

theorem Run_zero_concurrency_panics:
  "Run warmup0 True True 60 None 0 world0 = Panic DivideByZero \<lparr>clock = 0, trace = [RandSeed]\<rparr>"
  by (simp add: run_eval)



text \<open>
  C5. In a run with RPC requests (and a concurrency other than zero, so that the run gets
  past the division) \<open>Connect\<close> is called exactly once and no RPC worker is started before
  it; the HTTP workers started are those of the run without RPC requests. If the connect
  fails, the run is the run without RPC requests followed by the connect, the log line of
  its error and the wait: no RPC worker is started.
\<close>

theorem rpc_connect_once_before_workers:
  assumes "Concurrency w \<noteq> 0"
  shows "returns (Run w h True m connErr cn \<sigma>) \<and>
         length (filter isGrpcConnect (eventsOf \<sigma> (Run w h True m connErr cn \<sigma>))) = 1 \<and>
         filter isGoGrpc (takeWhile (\<lambda>e. \<not> isGrpcConnect e)
                            (eventsOf \<sigma> (Run w h True m connErr cn \<sigma>))) = [] \<and>
         filter isGoHTTP (eventsOf \<sigma> (Run w h True m connErr cn \<sigma>))
           = filter isGoHTTP (eventsOf \<sigma> (Run w h False m None 0 \<sigma>)) \<and>
         eventsOf \<sigma> (Run w h True m (Some err) cn \<sigma>)
           = butlast (eventsOf \<sigma> (Run w h False m None 0 \<sigma>))
             @ [Logs GrpcClientConnecting, GrpcConnect (HttpHeaders w),
                Logs (GrpcClientConnectError err), WgWait] \<and>
         filter isGoGrpc (eventsOf \<sigma> (Run w h True m (Some err) cn \<sigma>)) = []"
proof -
  let ?iv = "quot (ConcurrencyTargetSeconds w) (Concurrency w)"
  let ?H = "if h then rampSchedule ?iv (Concurrency w) [Logs SpawningHTTP, WgAdd, GoHTTPWarmupWorker m] else []"
  let ?G = "rampSchedule ?iv (Concurrency w) [Logs SpawningGrpc, WgAdd, GoGrpcWarmupWorker m]"
  let ?R = "case connErr of Some err \<Rightarrow> [Logs (GrpcClientConnectError err)] | None \<Rightarrow> ?G"
  have ret: "returns (Run w h True m connErr cn \<sigma>)"
    using Run_events [OF assms] by blast
  have es: "eventsOf \<sigma> (Run w h True m connErr cn \<sigma>) =
              ([RandSeed] @ ?H @ [Logs GrpcClientConnecting]) @ GrpcConnect (HttpHeaders w) # (?R @ [WgWait])"
    using Run_events [OF assms, of h True m connErr cn \<sigma>] by simp
  have eh: "eventsOf \<sigma> (Run w h False m None 0 \<sigma>) = ([RandSeed] @ ?H) @ [WgWait]"
    using Run_events [OF assms, of h False m None 0 \<sigma>] by simp
  have ef: "eventsOf \<sigma> (Run w h True m (Some err) cn \<sigma>) =
              ([RandSeed] @ ?H) @ [Logs GrpcClientConnecting, GrpcConnect (HttpHeaders w),
                Logs (GrpcClientConnectError err), WgWait]"
    using Run_events [OF assms, of h True m "Some err" cn \<sigma>] by simp
  have H1: "filter isGrpcConnect ?H = []" "filter isGoGrpc ?H = []"
    by (simp_all add: filter_rampSchedule_empty)
  have G1: "filter isGrpcConnect ?G = []" "filter isGoHTTP ?G = []"
    by (simp_all add: filter_rampSchedule_empty)
  have R1: "filter isGrpcConnect ?R = []" "filter isGoHTTP ?R = []"
    using G1 by (simp_all split: option.splits)
  have pre: "\<forall>e \<in> set ([RandSeed] @ ?H @ [Logs GrpcClientConnecting]). \<not> isGrpcConnect e"
    using H1(1) by (auto simp: filter_empty_conv)
  have tw: "takeWhile (\<lambda>e. \<not> isGrpcConnect e) (eventsOf \<sigma> (Run w h True m connErr cn \<sigma>))
              = [RandSeed] @ ?H @ [Logs GrpcClientConnecting]"
    unfolding es by (rule takeWhile_until [OF pre]) simp
  have c1: "length (filter isGrpcConnect (eventsOf \<sigma> (Run w h True m connErr cn \<sigma>))) = 1"
    unfolding es using H1(1) R1(1) by simp
  have c2: "filter isGoGrpc (takeWhile (\<lambda>e. \<not> isGrpcConnect e)
                            (eventsOf \<sigma> (Run w h True m connErr cn \<sigma>))) = []"
    unfolding tw using H1(2) by simp
  have c3: "filter isGoHTTP (eventsOf \<sigma> (Run w h True m connErr cn \<sigma>))
           = filter isGoHTTP (eventsOf \<sigma> (Run w h False m None 0 \<sigma>))"
    unfolding es eh using R1(2) by simp
  have c4: "eventsOf \<sigma> (Run w h True m (Some err) cn \<sigma>)
           = butlast (eventsOf \<sigma> (Run w h False m None 0 \<sigma>))
             @ [Logs GrpcClientConnecting, GrpcConnect (HttpHeaders w),
                Logs (GrpcClientConnectError err), WgWait]"
    unfolding ef eh by (simp only: butlast_snoc)
  have c5: "filter isGoGrpc (eventsOf \<sigma> (Run w h True m (Some err) cn \<sigma>)) = []"
    unfolding ef using H1(2) by simp
  from ret c1 c2 c3 c4 c5 show ?thesis by blast
qed

theorem rpc_connect_once_before_workers_witness:
  "Concurrency warmup3 \<noteq> 0 \<and>
   returns (Run warmup3 True True 60 (Some ''refused'') 4 world0) \<and>
   eventsOf world0 (Run warmup3 True True 60 (Some ''refused'') 4 world0)
     = butlast (eventsOf world0 (Run warmup3 True False 60 None 0 world0))
       @ [Logs GrpcClientConnecting, GrpcConnect [], Logs (GrpcClientConnectError ''refused''), WgWait] \<and>
   filter isGoGrpc (eventsOf world0 (Run warmup3 True True 60 (Some ''refused'') 4 world0)) = []"
proof -
  have h: "Concurrency warmup3 \<noteq> 0" by (simp add: warmup3_def)
  have hs: "HttpHeaders warmup3 = []" by (simp add: warmup3_def)
  from rpc_connect_once_before_workers
         [OF h, of True 60 "Some ''refused''" 4 world0 "''refused''", unfolded hs] h
  show ?thesis by blast
qed

section \<open>The workers: pacing, counting, isolation of failures\<close>

lemma SendRequest_trace:
  "\<exists>es. trace (snd (SendRequest c net method path headers body \<sigma>)) = trace \<sigma> @ es \<and> quiet es"
  by (simp add: SendRequest_def Let_def quiet_def outcomes_def split: option.splits)

lemma SendRequest_counter:
  "requestsSentCounter (snd (SendRequest c net method path headers body s)) = requestsSentCounter s"
  by (simp add: SendRequest_def Let_def split: option.splits)

lemma pacedBy_append:
  assumes "pacedBy d xs" and "pacedBy d ys"
  shows "pacedBy d (xs @ ys)"
  unfolding pacedBy_def
proof (intro allI impI)
  fix k
  assume k: "k < length (xs @ ys)" and send: "isSendRequest ((xs @ ys) ! k)"
  show "0 < k \<and> (xs @ ys) ! (k - 1) = Sleeps d"
  proof (cases "k < length xs")
    case True
    with send have "isSendRequest (xs ! k)" by (simp add: nth_append)
    with assms(1) True have "0 < k \<and> xs ! (k - 1) = Sleeps d" by (simp add: pacedBy_def)
    with True show ?thesis by (auto simp: nth_append)
  next
    case False
    define j where "j = k - length xs"
    from False k have j: "j < length ys" "k = length xs + j" by (simp_all add: j_def)
    with send have "isSendRequest (ys ! j)" by (simp add: nth_append)
    with assms(2) j have "0 < j \<and> ys ! (j - 1) = Sleeps d" by (simp add: pacedBy_def)
    then have pj: "0 < j" "ys ! (j - 1) = Sleeps d" by simp_all
    from pj(1) j(2) have "\<not> k - 1 < length xs" "k - 1 - length xs = j - 1" "0 < k" by simp_all
    with pj(2) show ?thesis by (simp add: nth_append)
  qed
qed

lemma pacedBy_quiet: "quiet es \<Longrightarrow> pacedBy d es"
  by (simp add: pacedBy_def quiet_def list_all_length)

lemma pacedBy_send: "pacedBy d [Sleeps d, e]"
  by (auto simp: pacedBy_def less_Suc_eq)

lemma pacedBy_iteration:
  assumes "quiet es"
  shows "pacedBy d ([Sleeps d, e] @ es @ [Outcome r, Logs l])"
proof -
  have "pacedBy d [Outcome r, Logs l]" by (auto simp: pacedBy_def less_Suc_eq)
  with pacedBy_send [of d e] pacedBy_quiet [OF assms, of d] show ?thesis
    by (intro pacedBy_append)
qed

lemma sends_iteration:
  assumes "quiet es" and "isSendRequest e"
  shows "length (filter isSendRequest ([Sleeps d, e] @ es @ [Outcome r, Logs l])) = 1"
proof -
  from assms(1) have "filter isSendRequest es = []"
    by (simp add: quiet_def list_all_iff filter_empty_conv)
  with assms(2) show ?thesis by simp
qed

lemma outcomes_iteration:
  assumes "quiet es" and "isSendRequest e"
  shows "outcomes ([Sleeps d, e] @ es @ [Outcome r, Logs l]) = [r]"
  using assms by (cases e) (simp_all add: quiet_def outcomes_def)

lemma quiet_Nil: "quiet []"
  by (simp add: quiet_def outcomes_def)

text \<open>One iteration of either worker.\<close>

lemma HTTP_iteration:
  "\<exists>es r l. trace (HTTPWarmupWorker_iteration w headers delay (request, net) s) =
        trace s @ [Sleeps (delay * Millisecond), HttpSendRequest (Method request) (Path request)]
          @ es @ [Outcome r, Logs l] \<and> quiet es \<and>
      requestsSentCounter (HTTPWarmupWorker_iteration w headers delay (request, net) s) =
        requestsSentCounter s + (if noError r then 1 else 0)"
proof -
  define s1 where
    "s1 = emit (HttpSendRequest (Method request) (Path request)) (Sleep (delay * Millisecond) s)"
  obtain resp s2 where sr:
    "SendRequest (httpClient (Target w)) net (Method request) (Path request) headers
       (Body request) s1 = (resp, s2)"
    by (cases "SendRequest (httpClient (Target w)) net (Method request) (Path request) headers
                 (Body request) s1") auto
  from SendRequest_trace [of "httpClient (Target w)" net "Method request" "Path request"
                             headers "Body request" s1] sr
  obtain es where es: "trace s2 = trace s1 @ es" "quiet es" by auto
  have "requestsSentCounter
          (snd (SendRequest (httpClient (Target w)) net (Method request) (Path request) headers
                  (Body request) s1)) = requestsSentCounter s1"
    by (rule SendRequest_counter)
  then have "requestsSentCounter s2 = requestsSentCounter s1" by (simp only: sr snd_conv)
  then have c2: "requestsSentCounter s2 = requestsSentCounter s" by (simp add: s1_def)
  show ?thesis
    using sr es c2 unfolding HTTPWarmupWorker_iteration_def s1_def [symmetric]
    by (cases "Err resp") (auto simp: Let_def noError_def s1_def)
qed

lemma Grpc_iteration:
  "\<exists>r l. trace (snd (GrpcWarmupWorker_iteration send w headers delay (request, net) (c, s))) =
        trace s @ [Sleeps (delay * Millisecond),
                   GrpcSendRequest (ServiceMethod request) (Message request)]
          @ [] @ [Outcome r, Logs l] \<and>
      requestsSentCounter (snd (GrpcWarmupWorker_iteration send w headers delay (request, net) (c, s))) =
        requestsSentCounter s + (if noError r then 1 else 0)"
proof -
  define s1 where
    "s1 = emit (GrpcSendRequest (ServiceMethod request) (Message request))
            (Sleep (delay * Millisecond) s)"
  obtain resp c2 t2 where sr:
    "send net (ServiceMethod request) (Message request) headers (c, clock s1) = (resp, c2, t2)"
    by (cases "send net (ServiceMethod request) (Message request) headers (c, clock s1)") auto
  show ?thesis
    using sr unfolding GrpcWarmupWorker_iteration_def s1_def [symmetric]
    by (cases "Err resp") (auto simp: Let_def noError_def s1_def)
qed

lemma workerRun_done: "workerRun d 0 c c [WgDone]"
  by (simp add: workerRun_def pacedBy_def outcomes_def)

lemma workerRun_step:
  assumes q: "quiet es1" and e: "isSendRequest e"
    and rest: "workerRun d n (c + (if noError r then 1 else 0)) c' es2"
  shows "workerRun d (Suc n) c c' (([Sleeps d, e] @ es1 @ [Outcome r, Logs l]) @ es2)"
proof -
  define ev where "ev = [Sleeps d, e] @ es1 @ [Outcome r, Logs l]"
  have p: "pacedBy d ev" unfolding ev_def by (rule pacedBy_iteration [OF q])
  have n: "length (filter isSendRequest ev) = 1" unfolding ev_def by (rule sends_iteration [OF q e])
  have o: "outcomes ev = [r]" unfolding ev_def by (rule outcomes_iteration [OF q e])
  from rest have r: "pacedBy d es2" "length (filter isSendRequest es2) = n"
    "length (outcomes es2) = n"
    "c' = c + (if noError r then 1 else 0) + of_nat (length (filter noError (outcomes es2)))"
    by (simp_all add: workerRun_def)
  have "pacedBy d (ev @ es2)" using p r(1) by (rule pacedBy_append)
  moreover have "length (filter isSendRequest (ev @ es2)) = Suc n" using n r(2) by simp
  moreover have "length (outcomes (ev @ es2)) = Suc n" using o r(3) by simp
  moreover have "c' = c + of_nat (length (filter noError (outcomes (ev @ es2))))"
    using o r(4) by simp
  ultimately show ?thesis unfolding workerRun_def ev_def by blast
qed

lemma HTTPWarmupWorker_run:
  "\<exists>es. trace (HTTPWarmupWorker w requests headers delay s) = trace s @ es \<and>
        workerRun (delay * Millisecond) (length requests) (requestsSentCounter s)
          (requestsSentCounter (HTTPWarmupWorker w requests headers delay s)) es"
proof (induction requests arbitrary: s)
  case Nil
  show ?case by (simp add: workerRun_done)
next
  case (Cons x requests)
  obtain request net where x: "x = (request, net)" by (cases x) auto
  let ?d = "delay * Millisecond"
  let ?s' = "HTTPWarmupWorker_iteration w headers delay (request, net) s"
  from HTTP_iteration [of w headers delay request net s]
  obtain es1 r l where it:
    "trace ?s' = trace s @ [Sleeps ?d, HttpSendRequest (Method request) (Path request)] @ es1
                   @ [Outcome r, Logs l]"
    "quiet es1"
    "requestsSentCounter ?s' = requestsSentCounter s + (if noError r then 1 else 0)"
    by blast
  from Cons.IH [of ?s']
  obtain es2 where rest:
    "trace (HTTPWarmupWorker w requests headers delay ?s') = trace ?s' @ es2"
    "workerRun ?d (length requests) (requestsSentCounter ?s')
       (requestsSentCounter (HTTPWarmupWorker w requests headers delay ?s')) es2"
    by blast
  have w: "workerRun ?d (Suc (length requests)) (requestsSentCounter s)
       (requestsSentCounter (HTTPWarmupWorker w requests headers delay ?s'))
       (([Sleeps ?d, HttpSendRequest (Method request) (Path request)] @ es1 @ [Outcome r, Logs l]) @ es2)"
    by (rule workerRun_step [OF it(2)]) (use rest(2) it(3) in simp_all)
  have t: "trace (HTTPWarmupWorker w (x # requests) headers delay s) =
        trace s @ (([Sleeps ?d, HttpSendRequest (Method request) (Path request)] @ es1
                     @ [Outcome r, Logs l]) @ es2)"
    using rest(1) it(1) x by simp
  from t w x show ?case by (intro exI conjI) (assumption, simp)
qed

lemma GrpcWarmupWorker_run:
  "\<exists>es. trace (snd (GrpcWarmupWorker send w requests headers delay (c, s))) = trace s @ es \<and>
        workerRun (delay * Millisecond) (length requests) (requestsSentCounter s)
          (requestsSentCounter (snd (GrpcWarmupWorker send w requests headers delay (c, s)))) es"
proof (induction requests arbitrary: c s)
  case Nil
  show ?case by (simp add: workerRun_done)
next
  case (Cons x requests)
  obtain request net where x: "x = (request, net)" by (cases x) auto
  let ?d = "delay * Millisecond"
  obtain c' s' where step:
    "GrpcWarmupWorker_iteration send w headers delay (request, net) (c, s) = (c', s')"
    by (cases "GrpcWarmupWorker_iteration send w headers delay (request, net) (c, s)") auto
  from Grpc_iteration [of send w headers delay request net c s] step
  obtain r l where it:
    "trace s' = trace s @ [Sleeps ?d, GrpcSendRequest (ServiceMethod request) (Message request)]
                  @ [] @ [Outcome r, Logs l]"
    "requestsSentCounter s' = requestsSentCounter s + (if noError r then 1 else 0)"
    by auto
  from Cons.IH [of c' s']
  obtain es2 where rest:
    "trace (snd (GrpcWarmupWorker send w requests headers delay (c', s'))) = trace s' @ es2"
    "workerRun ?d (length requests) (requestsSentCounter s')
       (requestsSentCounter (snd (GrpcWarmupWorker send w requests headers delay (c', s')))) es2"
    by blast
  have w: "workerRun ?d (Suc (length requests)) (requestsSentCounter s)
       (requestsSentCounter (snd (GrpcWarmupWorker send w requests headers delay (c', s'))))
       (([Sleeps ?d, GrpcSendRequest (ServiceMethod request) (Message request)] @ []
           @ [Outcome r, Logs l]) @ es2)"
    by (rule workerRun_step [OF quiet_Nil]) (use rest(2) it(2) in simp_all)
  have t: "trace (snd (GrpcWarmupWorker send w (x # requests) headers delay (c, s))) =
        trace s @ (([Sleeps ?d, GrpcSendRequest (ServiceMethod request) (Message request)] @ []
                      @ [Outcome r, Logs l]) @ es2)"
    using rest(1) it(1) x step by simp
  from t w x step show ?case by (intro exI conjI) (assumption, simp)
qed

text \<open>
  An Outcome with an error leaves the counter as it was and is logged as a failure; the loop
  then goes on with the next descriptor, as the equations of the two workers say.
\<close>

lemma Grpc_iteration_outcome:
  "\<exists>r. outcomes (since s (snd (GrpcWarmupWorker_iteration send w headers delay (request, net) (c, s)))) = [r] \<and>
       requestsSentCounter (snd (GrpcWarmupWorker_iteration send w headers delay (request, net) (c, s))) =
         requestsSentCounter s + (if noError r then 1 else 0) \<and>
       (\<forall>err. Err r = Some err \<longrightarrow>
          last (trace (snd (GrpcWarmupWorker_iteration send w headers delay (request, net) (c, s))))
            = Logs (GrpcErrorInRequest (ServiceMethod request) err))"
proof -
  define s1 where
    "s1 = emit (GrpcSendRequest (ServiceMethod request) (Message request))
            (Sleep (delay * Millisecond) s)"
  obtain resp c2 t2 where sr:
    "send net (ServiceMethod request) (Message request) headers (c, clock s1) = (resp, c2, t2)"
    by (cases "send net (ServiceMethod request) (Message request) headers (c, clock s1)") auto
  show ?thesis
    using sr unfolding GrpcWarmupWorker_iteration_def s1_def [symmetric]
    by (cases "Err resp") (auto simp: Let_def noError_def s1_def since_def outcomes_def)
qed

lemma HTTP_iteration_error_logged:
  assumes "Err (fst (SendRequest (httpClient (Target w)) net (Method request) (Path request) headers
                       (Body request)
                       (emit (HttpSendRequest (Method request) (Path request))
                          (Sleep (delay * Millisecond) s)))) = Some err"
  shows "requestsSentCounter (HTTPWarmupWorker_iteration w headers delay (request, net) s)
           = requestsSentCounter s \<and>
         last (trace (HTTPWarmupWorker_iteration w headers delay (request, net) s))
           = Logs (HttpErrorInRequest (Path request) err)"
proof -
  define s1 where
    "s1 = emit (HttpSendRequest (Method request) (Path request)) (Sleep (delay * Millisecond) s)"
  obtain resp s2 where sr:
    "SendRequest (httpClient (Target w)) net (Method request) (Path request) headers
       (Body request) s1 = (resp, s2)"
    by (cases "SendRequest (httpClient (Target w)) net (Method request) (Path request) headers
                 (Body request) s1") auto
  have "requestsSentCounter
          (snd (SendRequest (httpClient (Target w)) net (Method request) (Path request) headers
                  (Body request) s1)) = requestsSentCounter s1"
    by (simp add: SendRequest_def Let_def split: option.splits)
  then have "requestsSentCounter s2 = requestsSentCounter s1" by (simp only: sr snd_conv)
  then have c2: "requestsSentCounter s2 = requestsSentCounter s" by (simp add: s1_def)
  from assms sr have e: "Err resp = Some err" by (simp add: s1_def)
  show ?thesis
    using sr c2 e unfolding HTTPWarmupWorker_iteration_def s1_def [symmetric]
    by (auto simp: Let_def s1_def)
qed

lemma sint_of_nat_64:
  assumes "n < 2 ^ 63"
  shows "sint (of_nat n :: 64 word) = int n"
proof -
  from assms have "int n < int (2 ^ 63)" by (simp only: of_nat_less_iff)
  then have "int n < 2 ^ 63" by simp
  then have "signed_take_bit 63 (int n) = int n"
    by (intro signed_take_bit_int_eq_self) simp_all
  then show ?thesis by (simp add: signed_of_nat)
qed

lemma Err_SendRequest_status:
  "Err (fst (SendRequest c (net\<lparr>doStatusCode := code\<rparr>) method path headers body \<sigma>)) =
   Err (fst (SendRequest c net method path headers body \<sigma>))"
  by (simp add: SendRequest_def Let_def split: option.splits)

lemma iteration_counter_Err:
  "requestsSentCounter (HTTPWarmupWorker_iteration w headers delay (request, net) s) =
   requestsSentCounter s +
     (case Err (fst (SendRequest (httpClient (Target w)) net (Method request) (Path request) headers
                       (Body request)
                       (emit (HttpSendRequest (Method request) (Path request))
                          (Sleep (delay * Millisecond) s)))) of
        None \<Rightarrow> 1 | Some err \<Rightarrow> 0)"
proof -
  define s1 where
    "s1 = emit (HttpSendRequest (Method request) (Path request)) (Sleep (delay * Millisecond) s)"
  obtain resp s2 where sr:
    "SendRequest (httpClient (Target w)) net (Method request) (Path request) headers
       (Body request) s1 = (resp, s2)"
    by (cases "SendRequest (httpClient (Target w)) net (Method request) (Path request) headers
                 (Body request) s1") auto
  have "requestsSentCounter
          (snd (SendRequest (httpClient (Target w)) net (Method request) (Path request) headers
                  (Body request) s1)) = requestsSentCounter s1"
    by (rule SendRequest_counter)
  then have "requestsSentCounter s2 = requestsSentCounter s1" by (simp only: sr snd_conv)
  then have c2: "requestsSentCounter s2 = requestsSentCounter s" by (simp add: s1_def)
  show ?thesis
    using sr c2 unfolding HTTPWarmupWorker_iteration_def s1_def [symmetric]
    by (cases "Err resp") (auto simp: Let_def s1_def)
qed

lemma iteration_outcome:
  "\<exists>r. outcomes (since s (HTTPWarmupWorker_iteration w headers delay (request, net) s)) = [r] \<and>
       requestsSentCounter (HTTPWarmupWorker_iteration w headers delay (request, net) s) =
         requestsSentCounter s + (if noError r then 1 else 0)"
proof -
  from HTTP_iteration [of w headers delay request net s]
  obtain es r l where it:
    "trace (HTTPWarmupWorker_iteration w headers delay (request, net) s) =
       trace s @ [Sleeps (delay * Millisecond), HttpSendRequest (Method request) (Path request)]
         @ es @ [Outcome r, Logs l]"
    "quiet es"
    "requestsSentCounter (HTTPWarmupWorker_iteration w headers delay (request, net) s) =
       requestsSentCounter s + (if noError r then 1 else 0)"
    by blast
  have "outcomes ([Sleeps (delay * Millisecond), HttpSendRequest (Method request) (Path request)]
                    @ es @ [Outcome r, Logs l]) = [r]"
    by (rule outcomes_iteration [OF it(2)]) simp
  with it(1) have "outcomes (since s (HTTPWarmupWorker_iteration w headers delay (request, net) s)) = [r]"
    by (simp only: since_append)
  with it(3) show ?thesis by blast
qed

lemma Run_single_worker:
  assumes "Concurrency w = 1"
  shows "filter isGo (eventsOf \<sigma> (Run w True False m connErr cn \<sigma>)) = [GoHTTPWarmupWorker m]"
  using assms
  by (simp add: Run_def go_div_def Let_def eventsOf_def theWorld_def since_def loopIndices_def
      waitForRampUp_def isGo_def word_sless_alt)

lemmas http_eval = SendRequest_def NewHttpClient_def TrimRight_def TrimLeft_def net_slow_body_def
  net_500_def net_timeout_def world0_def wstate0_def getA_def warmup1_def warmup3_def
  emit_def elapse_def Sleep_def Let_def Sub_def HTTPWarmupWorker_iteration_def quot_def
  Millisecond_def Second_def since_def

text \<open>
  C7. A single HTTP worker that starts with the counter at \<open>c\<close> ends with the counter at
  \<open>c\<close> plus the number of the Outcomes of its sends that have no error, in the 64-bit
  arithmetic of the counter; there is one Outcome per descriptor received. Started at zero
  and over fewer than \<open>2 ^ 63\<close> descriptors the counter, read as an integer, is exactly that
  number. In one iteration the counter grows by one if the Outcome has no error and stays
  as it is otherwise; the status code the server answers changes only the log line, not
  the counter. With concurrency 1 and HTTP requests only, \<open>Run\<close> starts exactly that one
  worker.
\<close>

theorem counter_counts_no_error_outcomes:
  "requestsSentCounter (HTTPWarmupWorker w requests headers delay s) =
     requestsSentCounter s +
     of_nat (length (filter noError
                       (outcomes (since s (HTTPWarmupWorker w requests headers delay s))))) \<and>
   length (outcomes (since s (HTTPWarmupWorker w requests headers delay s))) = length requests \<and>
   (requestsSentCounter s = 0 \<and> length requests < 2 ^ 63 \<longrightarrow>
      sint (requestsSentCounter (HTTPWarmupWorker w requests headers delay s)) =
      int (length (filter noError
                     (outcomes (since s (HTTPWarmupWorker w requests headers delay s)))))) \<and>
   (\<exists>r. outcomes (since s (HTTPWarmupWorker_iteration w headers delay (request, net) s)) = [r] \<and>
        requestsSentCounter (HTTPWarmupWorker_iteration w headers delay (request, net) s) =
          requestsSentCounter s + (if noError r then 1 else 0)) \<and>
   requestsSentCounter
     (HTTPWarmupWorker_iteration w headers delay (request, net\<lparr>doStatusCode := code\<rparr>) s) =
   requestsSentCounter (HTTPWarmupWorker_iteration w headers delay (request, net) s) \<and>
   (Concurrency w = 1 \<longrightarrow>
      filter isGo (eventsOf \<sigma> (Run w True False m connErr cn \<sigma>)) = [GoHTTPWarmupWorker m])"
proof -
  let ?s' = "HTTPWarmupWorker w requests headers delay s"
  from HTTPWarmupWorker_run [of w requests headers delay s]
  obtain es where es: "trace ?s' = trace s @ es"
    "workerRun (delay * Millisecond) (length requests) (requestsSentCounter s)
       (requestsSentCounter ?s') es"
    by blast
  from es(1) have sn: "since s ?s' = es" by (rule since_append)
  from es(2) have c: "requestsSentCounter ?s' =
      requestsSentCounter s + of_nat (length (filter noError (outcomes es)))"
    and n: "length (outcomes es) = length requests"
    by (simp_all add: workerRun_def)
  have ex: "requestsSentCounter s = 0 \<and> length requests < 2 ^ 63 \<longrightarrow>
      sint (requestsSentCounter ?s') = int (length (filter noError (outcomes es)))"
  proof
    assume a: "requestsSentCounter s = 0 \<and> length requests < 2 ^ 63"
    have "length (filter noError (outcomes es)) \<le> length requests"
      using n length_filter_le [of noError "outcomes es"] by simp
    with a have "length (filter noError (outcomes es)) < 2 ^ 63" by simp
    then have "sint (of_nat (length (filter noError (outcomes es))) :: 64 word) =
               int (length (filter noError (outcomes es)))"
      by (rule sint_of_nat_64)
    with c a show "sint (requestsSentCounter ?s') = int (length (filter noError (outcomes es)))"
      by simp
  qed
  have st: "requestsSentCounter
     (HTTPWarmupWorker_iteration w headers delay (request, net\<lparr>doStatusCode := code\<rparr>) s) =
   requestsSentCounter (HTTPWarmupWorker_iteration w headers delay (request, net) s)"
    by (simp only: iteration_counter_Err Err_SendRequest_status)
  have run: "Concurrency w = 1 \<longrightarrow>
      filter isGo (eventsOf \<sigma> (Run w True False m connErr cn \<sigma>)) = [GoHTTPWarmupWorker m]"
    using Run_single_worker by blast
  from c n ex iteration_outcome [of s w headers delay request net] st run
  show ?thesis unfolding sn by blast
qed

theorem counter_counts_no_error_outcomes_witness:
  "requestsSentCounter wstate0 = 0 \<and>
   length [(getA, net_500), (getA, net_timeout)] < 2 ^ 63 \<and>
   Concurrency warmup1 = 1 \<and>
   map Err (outcomes (since wstate0
              (HTTPWarmupWorker warmup1 [(getA, net_500), (getA, net_timeout)] [] 50 wstate0)))
     = [None, Some ''context deadline exceeded''] \<and>
   requestsSentCounter
     (HTTPWarmupWorker warmup1 [(getA, net_500), (getA, net_timeout)] [] 50 wstate0) = 1 \<and>
   sint (requestsSentCounter
           (HTTPWarmupWorker warmup1 [(getA, net_500), (getA, net_timeout)] [] 50 wstate0)) = 1 \<and>
   filter isGo (eventsOf world0 (Run warmup1 True False 60 None 0 world0))
     = [GoHTTPWarmupWorker 60]"
proof -
  let ?W = "HTTPWarmupWorker warmup1 [(getA, net_500), (getA, net_timeout)] [] 50 wstate0"
  have h0: "requestsSentCounter wstate0 = 0" by (simp add: wstate0_def)
  have h1: "length [(getA, net_500), (getA, net_timeout)] < 2 ^ 63" by simp
  have h2: "Concurrency warmup1 = 1" by (simp add: warmup1_def warmup3_def)
  have ev: "outcomes (since wstate0 ?W) =
      [\<lparr>Duration = 3000000, Err = None, Type = ''http'', StatusCode = 500\<rparr>,
       \<lparr>Duration = 10000000000, Err = Some ''context deadline exceeded'', Type = ''http'',
        StatusCode = 0\<rparr>]"
    by (simp add: http_eval outcomes_def)
  have n: "length (filter noError (outcomes (since wstate0 ?W))) = 1"
    unfolding ev by (simp add: noError_def)
  from counter_counts_no_error_outcomes
         [of warmup1 "[(getA, net_500), (getA, net_timeout)]" "[]" 50 wstate0 getA net_500 0
             world0 60 None 0]
  have c: "requestsSentCounter ?W = requestsSentCounter wstate0 +
             of_nat (length (filter noError (outcomes (since wstate0 ?W))))"
    and s: "requestsSentCounter wstate0 = 0 \<and> length [(getA, net_500), (getA, net_timeout)] < 2 ^ 63
            \<longrightarrow> sint (requestsSentCounter ?W) =
                int (length (filter noError (outcomes (since wstate0 ?W))))"
    and r: "Concurrency warmup1 = 1 \<longrightarrow>
            filter isGo (eventsOf world0 (Run warmup1 True False 60 None 0 world0))
              = [GoHTTPWarmupWorker 60]"
    by blast+
  from c h0 n have c': "requestsSentCounter ?W = 1" by simp
  from s h0 h1 n have s': "sint (requestsSentCounter ?W) = 1" by simp
  from r h2 have r': "filter isGo (eventsOf world0 (Run warmup1 True False 60 None 0 world0))
              = [GoHTTPWarmupWorker 60]" by blast
  have m: "map Err (outcomes (since wstate0 ?W)) = [None, Some ''context deadline exceeded'']"
    unfolding ev by simp
  from h0 h1 h2 m c' s' r' show ?thesis by blast
qed

text \<open>
  C9. In a run of the HTTP worker and in a run of the RPC worker, whatever the RPC client's
  method does, every call of the Transport Client comes directly after the call
  \<open>time.Sleep(time.Duration(requestDelayMilliseconds) * time.Millisecond)\<close>, so no send,
  the first included, goes out before that sleep; and there is one such call per descriptor
  received.
\<close>

theorem pacing_delay_precedes_every_send:
  "pacedBy (delay * Millisecond) (since s (HTTPWarmupWorker w requests headers delay s)) \<and>
   length (filter isSendRequest (since s (HTTPWarmupWorker w requests headers delay s)))
     = length requests \<and>
   pacedBy (delay * Millisecond)
     (since s (snd (GrpcWarmupWorker send w grequests headers delay (c, s)))) \<and>
   length (filter isSendRequest
             (since s (snd (GrpcWarmupWorker send w grequests headers delay (c, s)))))
     = length grequests"
proof -
  from HTTPWarmupWorker_run [of w requests headers delay s]
  obtain es where es: "trace (HTTPWarmupWorker w requests headers delay s) = trace s @ es"
    "workerRun (delay * Millisecond) (length requests) (requestsSentCounter s)
       (requestsSentCounter (HTTPWarmupWorker w requests headers delay s)) es"
    by blast
  from GrpcWarmupWorker_run [of send w grequests headers delay c s]
  obtain gs where gs:
    "trace (snd (GrpcWarmupWorker send w grequests headers delay (c, s))) = trace s @ gs"
    "workerRun (delay * Millisecond) (length grequests) (requestsSentCounter s)
       (requestsSentCounter (snd (GrpcWarmupWorker send w grequests headers delay (c, s)))) gs"
    by blast
  from es(1) have e1: "since s (HTTPWarmupWorker w requests headers delay s) = es"
    by (rule since_append)
  from gs(1) have g1: "since s (snd (GrpcWarmupWorker send w grequests headers delay (c, s))) = gs"
    by (rule since_append)
  from es(2) gs(2) show ?thesis unfolding e1 g1 by (simp add: workerRun_def)
qed

theorem pacing_delay_precedes_every_send_witness:
  "isSendRequest
     (since wstate0 (HTTPWarmupWorker warmup1 [(getA, net_500), (getA, net_timeout)] [] 50 wstate0) ! 1) \<and>
   since wstate0 (HTTPWarmupWorker warmup1 [(getA, net_500), (getA, net_timeout)] [] 50 wstate0) ! 0
     = Sleeps 50000000 \<and>
   isSendRequest
     (since wstate0 (HTTPWarmupWorker warmup1 [(getA, net_500), (getA, net_timeout)] [] 50 wstate0) ! 8) \<and>
   since wstate0 (HTTPWarmupWorker warmup1 [(getA, net_500), (getA, net_timeout)] [] 50 wstate0) ! 7
     = Sleeps 50000000 \<and>
   isSendRequest
     (since wstate0 (snd (GrpcWarmupWorker sendByRequest warmup1 [(callM, net_unavailable)] [] 50
                            (NewClient ''localhost:50051'' False 10, wstate0))) ! 1) \<and>
   since wstate0 (snd (GrpcWarmupWorker sendByRequest warmup1 [(callM, net_unavailable)] [] 50
                         (NewClient ''localhost:50051'' False 10, wstate0))) ! 0
     = Sleeps 50000000"
proof -
  let ?W = "HTTPWarmupWorker warmup1 [(getA, net_500), (getA, net_timeout)] [] 50 wstate0"
  let ?G = "snd (GrpcWarmupWorker sendByRequest warmup1 [(callM, net_unavailable)] [] 50
                   (NewClient ''localhost:50051'' False 10, wstate0))"
  have ev: "since wstate0 ?W =
     [Sleeps 50000000, HttpSendRequest ''GET'' ''/a'',
      HttpNewRequest ''GET'' ''http://localhost:8080/a'',
      HttpDo ''GET'' ''http://localhost:8080/a'', IoCopyDiscard,
      Outcome \<lparr>Duration = 3000000, Err = None, Type = ''http'', StatusCode = 500\<rparr>,
      Logs (HttpRedResponse ''http'' 3 500 ''GET'' ''/a''),
      Sleeps 50000000, HttpSendRequest ''GET'' ''/a'',
      HttpNewRequest ''GET'' ''http://localhost:8080/a'',
      HttpDo ''GET'' ''http://localhost:8080/a'',
      Outcome \<lparr>Duration = 10000000000, Err = Some ''context deadline exceeded'',
               Type = ''http'', StatusCode = 0\<rparr>,
      Logs (HttpErrorInRequest ''/a'' ''context deadline exceeded''),
      WgDone]"
    by (simp add: http_eval signed_divide_int_def)
  have gv: "since wstate0 ?G =
     [Sleeps 50000000, GrpcSendRequest ''svc/Method'' ''{}'',
      Outcome \<lparr>Duration = 7, Err = None, Type = ''grpc'', StatusCode = 0\<rparr>,
      Logs (GrpcGreenResponse ''grpc'' 0 ''svc/Method''), WgDone]"
    by (simp add: grpc_eval since_def)
  have d: "50 * Millisecond = (50000000 :: Duration)" by (simp add: Millisecond_def)
  from pacing_delay_precedes_every_send
         [of 50 wstate0 warmup1 "[(getA, net_500), (getA, net_timeout)]" "[]" sendByRequest
             "[(callM, net_unavailable)]" "NewClient ''localhost:50051'' False 10"]
  have p: "pacedBy 50000000 (since wstate0 ?W)" and q: "pacedBy 50000000 (since wstate0 ?G)"
    unfolding d by blast+
  have s1: "isSendRequest (since wstate0 ?W ! 1)" and s8: "isSendRequest (since wstate0 ?W ! 8)"
    and l: "1 < length (since wstate0 ?W)" "8 < length (since wstate0 ?W)"
    unfolding ev by simp_all
  have g1: "isSendRequest (since wstate0 ?G ! 1)" and gl: "1 < length (since wstate0 ?G)"
    unfolding gv by simp_all
  from p l(1) s1 have a: "since wstate0 ?W ! (1 - 1) = Sleeps 50000000"
    unfolding pacedBy_def by blast
  from p l(2) s8 have b: "since wstate0 ?W ! (8 - 1) = Sleeps 50000000"
    unfolding pacedBy_def by blast
  from q gl g1 have c: "since wstate0 ?G ! (1 - 1) = Sleeps 50000000"
    unfolding pacedBy_def by blast
  from a b c s1 s8 g1 show ?thesis by simp
qed

section \<open>The HTTP client: what the duration measures\<close>

text \<open>
  C4, as the code has it. For every send whose request is constructed, the duration of the
  Outcome is the time between the instant just before \<open>httpClient.Do\<close> is called (after the
  request is built and its headers are set) and the instant \<open>Do\<close> returns. The time the
  drain of the body takes afterwards does not enter it: with any other drain time the
  duration is the same, while the send returns only after the drain.
\<close>

theorem SendRequest_duration_is_time_of_Do:
  assumes "newRequestErr net = None"
  shows "Duration (fst (SendRequest c net method path headers body \<sigma>)) =
           Sub (clock \<sigma> + int (newRequestNanos net) + int (headersNanos net) + int (doNanos net))
               (clock \<sigma> + int (newRequestNanos net) + int (headersNanos net)) \<and>
         Duration (fst (SendRequest c (net\<lparr>copyNanos := k\<rparr>) method path headers body \<sigma>)) =
           Duration (fst (SendRequest c net method path headers body \<sigma>)) \<and>
         (doErr net = None \<longrightarrow>
            clock (snd (SendRequest c net method path headers body \<sigma>)) =
              clock \<sigma> + int (newRequestNanos net) + int (headersNanos net) + int (doNanos net)
                + int (copyNanos net))"
  using assms by (simp add: SendRequest_def Let_def split: option.splits)

theorem SendRequest_duration_is_time_of_Do_witness:
  "newRequestErr net_slow_body = None \<and> doErr net_slow_body = None \<and>
   Duration (fst (SendRequest (NewHttpClient ''http://localhost:8080/'' False) net_slow_body
                    ''GET'' ''/a'' [] None world0)) = 20000000 \<and>
   clock (snd (SendRequest (NewHttpClient ''http://localhost:8080/'' False) net_slow_body
                 ''GET'' ''/a'' [] None world0)) = 521000000"
proof -
  have h: "newRequestErr net_slow_body = None" "doErr net_slow_body = None"
    by (simp_all add: net_slow_body_def)
  from SendRequest_duration_is_time_of_Do
         [OF h(1), of "NewHttpClient ''http://localhost:8080/'' False" "''GET''" "''/a''" "[]"
            None world0 0] h
  show ?thesis by (simp add: net_slow_body_def world0_def Sub_def)
qed

text \<open>
  The claim C4 as stated fails: against a server that answers after 20 ms with a body that
  takes 500 ms to drain, the send returns 521 ms after it began and reports 20 ms, which is
  neither the time from the start of the construction nor the time from its end until the
  body is drained.
\<close>

theorem SendRequest_duration_excludes_drain:
  "Duration (fst (SendRequest (NewHttpClient ''http://localhost:8080/'' False) net_slow_body
                    ''GET'' ''/a'' [] None world0)) = 20000000 \<and>
   clock (snd (SendRequest (NewHttpClient ''http://localhost:8080/'' False) net_slow_body
                 ''GET'' ''/a'' [] None world0)) = 521000000 \<and>
   Duration (fst (SendRequest (NewHttpClient ''http://localhost:8080/'' False) net_slow_body
                    ''GET'' ''/a'' [] None world0))
     \<noteq> Sub (clock (snd (SendRequest (NewHttpClient ''http://localhost:8080/'' False)
                           net_slow_body ''GET'' ''/a'' [] None world0)))
            (clock world0) \<and>
   Duration (fst (SendRequest (NewHttpClient ''http://localhost:8080/'' False) net_slow_body
                    ''GET'' ''/a'' [] None world0))
     \<noteq> Sub (clock (snd (SendRequest (NewHttpClient ''http://localhost:8080/'' False)
                           net_slow_body ''GET'' ''/a'' [] None world0)))
            (clock world0 + int (newRequestNanos net_slow_body))"
  by (simp add: http_eval)

section \<open>Request sources: the empty pool\<close>

text \<open>
  C8. A source over an empty pool, HTTP or RPC, delivers no descriptor and its goroutine
  does nothing but close the channel: no timer is created, so neither the deadline nor the
  number of rounds a timer would take matters.
\<close>

theorem empty_pool_source_is_empty:
  "(HttpRequests w = [] \<longrightarrow>
      GetWarmupHTTPRequests w maxDurationSeconds rounds rnd = ([CloseChan], [])) \<and>
   (GrpcRequests w = [] \<longrightarrow>
      GetWarmupGrpcRequests w maxDurationSeconds rounds rnd = ([CloseChan], []))"
  by (simp add: GetWarmupHTTPRequests_def GetWarmupGrpcRequests_def)

theorem empty_pool_source_is_empty_witness:
  "HttpRequests warmupEmpty = [] \<and> GrpcRequests warmupEmpty = [] \<and>
   GetWarmupHTTPRequests warmupEmpty 60 1000 (\<lambda>k. k) = ([CloseChan], []) \<and>
   GetWarmupGrpcRequests warmupEmpty 60 1000 (\<lambda>k. k) = ([CloseChan], [])"
proof -
  have h: "HttpRequests warmupEmpty = []" "GrpcRequests warmupEmpty = []"
    by (simp_all add: warmupEmpty_def)
  from empty_pool_source_is_empty [of warmupEmpty 60 1000 "\<lambda>k. k"] h show ?thesis by blast
qed

end
